theory Spec2Isabelle
  imports Complex_Main "HOL-Library.Word"
begin

section \<open>Face anonymizer: the detection and anonymization pipeline of backend/main.py\<close>

text \<open>
  The development embeds the five functions of \<^verbatim>\<open>backend/main.py\<close> that make up the
  pipeline: \<^verbatim>\<open>detect_faces_deepface\<close>, \<^verbatim>\<open>detect_faces_opencv\<close>, \<^verbatim>\<open>anonymize_face\<close>,
  \<^verbatim>\<open>process_image\<close> and \<^verbatim>\<open>process_video\<close>.

  Python exceptions are values of the type \<open>error\<close>; a call that may raise returns
  \<open>error + 'a\<close>. numpy arrays are mutable objects that several names can reach, so they
  live in an explicit heap: a Python variable holding an array is an address, and a
  function that may mutate or allocate takes the heap and returns the new one.
\<close>

subsection \<open>Exceptions\<close>

datatype error =
    ZeroDivisionError   \<comment> \<open>Python: integer or float division by zero\<close>
  | ValueError          \<comment> \<open>numpy: shapes that cannot be broadcast\<close>
  | CvError             \<comment> \<open>\<^verbatim>\<open>cv2.error\<close>: a failed assertion inside OpenCV\<close>
  | DetectorError       \<comment> \<open>an exception of class \<^verbatim>\<open>Exception\<close> raised inside a detector library\<close>
  | OSError             \<comment> \<open>a failed write to standard output\<close>
  | KeyboardInterrupt   \<comment> \<open>an interrupt delivered while a call runs\<close>
  | SystemExit          \<comment> \<open>\<^verbatim>\<open>sys.exit()\<close> called inside a library\<close>

definition is_Exception :: "error \<Rightarrow> bool" where
  \<comment> \<open>the classes derived from \<^verbatim>\<open>Exception\<close>; \<^verbatim>\<open>KeyboardInterrupt\<close> and \<^verbatim>\<open>SystemExit\<close> derive
      from \<^verbatim>\<open>BaseException\<close> only\<close>
  "is_Exception e = (e \<noteq> KeyboardInterrupt \<and> e \<noteq> SystemExit)"

subsection \<open>Arrays and the heap\<close>

text \<open>
  An image array is a list of rows, a row is a list of pixels, and a pixel is the list of
  its \<^verbatim>\<open>uint8\<close> channel values (three for a BGR frame, one for a grayscale image).
\<close>

type_synonym pixel = "8 word list"
type_synonym ndarray = "pixel list list"
type_synonym region = "int \<times> int \<times> int \<times> int"

definition ncols :: "ndarray \<Rightarrow> nat" where
  "ncols a = (case a of [] \<Rightarrow> 0 | row # _ \<Rightarrow> length row)"

definition is_array :: "ndarray \<Rightarrow> bool" where
  \<comment> \<open>every numpy array is rectangular\<close>
  "is_array a = list_all (\<lambda>row. length row = ncols a) a"

definition is_empty :: "ndarray \<Rightarrow> bool" where
  "is_empty a = (length a = 0 \<or> ncols a = 0)"

definition tabulate :: "nat \<Rightarrow> nat \<Rightarrow> (nat \<Rightarrow> nat \<Rightarrow> pixel) \<Rightarrow> ndarray" where
  "tabulate rows cols f = map (\<lambda>r. map (\<lambda>c. f r c) [0..<cols]) [0..<rows]"

record heap =
  cells :: "nat \<Rightarrow> ndarray"
  next_free :: nat

definition alloc :: "ndarray \<Rightarrow> heap \<Rightarrow> nat \<times> heap" where
  "alloc a hp = (next_free hp, hp\<lparr>cells := (cells hp)(next_free hp := a), next_free := Suc (next_free hp)\<rparr>)"

subsection \<open>Python slices and numpy indexing\<close>

definition slice_index :: "int \<Rightarrow> nat \<Rightarrow> nat" where
  \<comment> \<open>one bound of \<^verbatim>\<open>a[i:j]\<close> on a sequence of length \<open>n\<close>: a negative bound counts from
      the end, and every bound is clamped into \<open>0..n\<close>\<close>
  "slice_index i n = (if i < 0 then nat (max (i + int n) 0) else min (nat i) n)"

definition slice_lo :: "int \<Rightarrow> int \<Rightarrow> nat \<Rightarrow> nat" where
  "slice_lo i j n = slice_index i n"

definition slice_len :: "int \<Rightarrow> int \<Rightarrow> nat \<Rightarrow> nat" where
  "slice_len i j n = slice_index j n - slice_index i n"

definition np_getitem :: "ndarray \<Rightarrow> int \<Rightarrow> int \<Rightarrow> int \<Rightarrow> int \<Rightarrow> ndarray" where
  \<comment> \<open>\<^verbatim>\<open>a[r0:r1, c0:c1]\<close>\<close>
  "np_getitem a r0 r1 c0 c1 =
     map (\<lambda>row. take (slice_len c0 c1 (ncols a)) (drop (slice_lo c0 c1 (ncols a)) row))
         (take (slice_len r0 r1 (length a)) (drop (slice_lo r0 r1 (length a)) a))"

definition stretch :: "nat \<Rightarrow> 'a list \<Rightarrow> 'a list" where
  \<comment> \<open>numpy broadcasting along one axis: an axis of length 1 is repeated\<close>
  "stretch n v = (if length v = n then v else replicate n (hd v))"

definition broadcastable :: "nat \<Rightarrow> nat \<Rightarrow> ndarray \<Rightarrow> bool" where
  "broadcastable rows cols v =
     ((length v = rows \<or> length v = 1) \<and> list_all (\<lambda>row. length row = cols \<or> length row = 1) v)"

definition np_setitem :: "ndarray \<Rightarrow> int \<Rightarrow> int \<Rightarrow> int \<Rightarrow> int \<Rightarrow> ndarray \<Rightarrow> error + ndarray" where
  \<comment> \<open>\<^verbatim>\<open>a[r0:r1, c0:c1] = v\<close>: the array after the assignment, or ValueError when the
      shape of \<open>v\<close> cannot be broadcast to the shape of the slice\<close>
  "np_setitem a r0 r1 c0 c1 v =
     (let rlo = slice_lo r0 r1 (length a); rows = slice_len r0 r1 (length a);
          clo = slice_lo c0 c1 (ncols a); cols = slice_len c0 c1 (ncols a)
      in if \<not> broadcastable rows cols v then Inl ValueError
         else Inr (take rlo a
                   @ map2 (\<lambda>old new. take clo old @ stretch cols new @ drop (clo + cols) old)
                          (take rows (drop rlo a)) (stretch rows v)
                   @ drop (rlo + rows) a))"

definition np_zeros_like :: "ndarray \<Rightarrow> ndarray" where
  "np_zeros_like a = map (map (map (\<lambda>_. 0))) a"

text \<open>
  A Python variable that holds an array is either a whole allocated array or a view: a
  basic slice \<^verbatim>\<open>a[r0:r1, c0:c1]\<close> shares the memory of \<open>a\<close>.
\<close>

datatype arr_ref = Whole nat | View nat int int int int

fun deref :: "heap \<Rightarrow> arr_ref \<Rightarrow> ndarray" where
  "deref hp (Whole a) = cells hp a"
| "deref hp (View a r0 r1 c0 c1) = np_getitem (cells hp a) r0 r1 c0 c1"

subsection \<open>Sequencing calls that may raise\<close>

definition and_then ::
  "(error + 'a) \<times> heap \<Rightarrow> ('a \<Rightarrow> heap \<Rightarrow> (error + 'b) \<times> heap) \<Rightarrow> (error + 'b) \<times> heap" where
  "and_then m f = (case m of (Inl e, hp) \<Rightarrow> (Inl e, hp) | (Inr v, hp) \<Rightarrow> f v hp)"

definition try_except ::
  "(error + 'a) \<times> heap \<Rightarrow> (error \<Rightarrow> heap \<Rightarrow> (error + 'a) \<times> heap) \<Rightarrow> (error + 'a) \<times> heap" where
  \<comment> \<open>\<^verbatim>\<open>try: body  except Exception as e: handler\<close>: an exception that is not of class
      \<^verbatim>\<open>Exception\<close> passes through\<close>
  "try_except body handler =
     (case body of
        (Inl e, hp) \<Rightarrow> (if is_Exception e then handler e hp else (Inl e, hp))
      | (Inr v, hp) \<Rightarrow> (Inr v, hp))"

subsection \<open>The libraries\<close>

text \<open>
  DeepFace, OpenCV and the file system are not part of the repository. What the pipeline
  needs of them is a parameter of the model:
  \<^item> \<open>extract_faces\<close> is \<^verbatim>\<open>DeepFace.extract_faces\<close> with the RetinaFace backend,
    \<^verbatim>\<open>enforce_detection=False\<close> and \<^verbatim>\<open>align=False\<close>; it reads the array it is given and
    returns a list of result dictionaries, or raises;
  \<^item> \<open>cvtColor_gray\<close> is \<^verbatim>\<open>cv2.cvtColor(_, cv2.COLOR_BGR2GRAY)\<close>: the contents of the new
    grayscale array, or an error;
  \<^item> \<open>detectMultiScale\<close> loads the frontal-face Haar cascade and runs the multi-scale
    search with the given scale factor and minimum neighbour count;
  \<^item> \<open>GaussianBlur\<close> is \<^verbatim>\<open>cv2.GaussianBlur(src, ksize, sigmaX)\<close>: the contents of the blurred
    array, or an error; which kernel sizes it accepts is left to the library;
  \<^item> \<open>linear_px\<close> and \<open>nearest_px\<close> give the value of one output pixel of the two
    interpolations of \<^verbatim>\<open>cv2.resize\<close>;
  \<^item> \<open>py_print\<close> is \<^verbatim>\<open>print\<close> of a line that starts with the given text: \<open>None\<close> when the
    line is written, otherwise the exception raised;
  \<^item> \<open>open_file\<close> is the container found at a path, if it can be opened.

  A result dictionary of DeepFace is represented by its \<^verbatim>\<open>facial_area\<close> entry: \<open>None\<close>
  when the key is absent, otherwise the association list of the inner dictionary.
\<close>

type_synonym face = "(string \<times> int) list option"

record container =
  prop_fps :: rat              \<comment> \<open>\<^verbatim>\<open>CAP_PROP_FPS\<close>: a float, any rate the container declares\<close>
  prop_width :: int            \<comment> \<open>\<^verbatim>\<open>CAP_PROP_FRAME_WIDTH\<close>: a whole number of pixels\<close>
  prop_height :: int           \<comment> \<open>\<^verbatim>\<open>CAP_PROP_FRAME_HEIGHT\<close>: a whole number of pixels\<close>
  prop_frame_count :: int      \<comment> \<open>\<^verbatim>\<open>CAP_PROP_FRAME_COUNT\<close>: what the header reports, which
                                   need not be the number of frames that decode\<close>
  decodable :: "ndarray list"  \<comment> \<open>the frames that \<^verbatim>\<open>read()\<close> delivers, in order\<close>

record libs =
  extract_faces :: "ndarray \<Rightarrow> error + face list"
  cvtColor_gray :: "ndarray \<Rightarrow> error + ndarray"
  detectMultiScale :: "ndarray \<Rightarrow> rat \<Rightarrow> int \<Rightarrow> error + region list"
  GaussianBlur :: "ndarray \<Rightarrow> int \<times> int \<Rightarrow> int \<Rightarrow> error + ndarray"
  linear_px :: "ndarray \<Rightarrow> nat \<Rightarrow> nat \<Rightarrow> nat \<Rightarrow> nat \<Rightarrow> pixel"
  nearest_px :: "ndarray \<Rightarrow> nat \<Rightarrow> nat \<Rightarrow> nat \<Rightarrow> nat \<Rightarrow> pixel"
  py_print :: "string \<Rightarrow> error option"
  open_file :: "string \<Rightarrow> container option"

definition cv_cvtColor :: "libs \<Rightarrow> ndarray \<Rightarrow> heap \<Rightarrow> (error + nat) \<times> heap" where
  \<comment> \<open>the grayscale image is a newly allocated array\<close>
  "cv_cvtColor lib src hp =
     (case cvtColor_gray lib src of
        Inl e \<Rightarrow> (Inl e, hp)
      | Inr g \<Rightarrow> (let (a, hp') = alloc g hp in (Inr a, hp')))"

definition cv_GaussianBlur ::
  "libs \<Rightarrow> ndarray \<Rightarrow> int \<times> int \<Rightarrow> int \<Rightarrow> heap \<Rightarrow> (error + arr_ref) \<times> heap" where
  \<comment> \<open>\<^verbatim>\<open>cv2.GaussianBlur(src, ksize, sigmaX)\<close>: the result is a newly allocated array\<close>
  "cv_GaussianBlur lib src ksize sigmaX hp =
     (case GaussianBlur lib src ksize sigmaX of
        Inl e \<Rightarrow> (Inl e, hp)
      | Inr blurred \<Rightarrow> (let (a, hp') = alloc blurred hp in (Inr (Whole a), hp')))"

definition cv_resize ::
  "(ndarray \<Rightarrow> nat \<Rightarrow> nat \<Rightarrow> nat \<Rightarrow> nat \<Rightarrow> pixel) \<Rightarrow> ndarray \<Rightarrow> int \<Rightarrow> int \<Rightarrow> heap
     \<Rightarrow> (error + arr_ref) \<times> heap" where
  \<comment> \<open>\<^verbatim>\<open>cv2.resize(src, (dw, dh), interpolation=...)\<close>: OpenCV asserts a non-empty source
      and, no scale factors being given, a target size with both dimensions positive;
      the result is a new array of \<open>dh\<close> rows and \<open>dw\<close> columns\<close>
  "cv_resize interp src dw dh hp =
     (if is_empty src \<or> dw \<le> 0 \<or> dh \<le> 0 then (Inl CvError, hp)
      else (let (a, hp') = alloc (tabulate (nat dh) (nat dw) (interp src (nat dh) (nat dw))) hp
            in (Inr (Whole a), hp')))"

definition zeros_like :: "ndarray \<Rightarrow> heap \<Rightarrow> (error + arr_ref) \<times> heap" where
  "zeros_like src hp = (let (a, hp') = alloc (np_zeros_like src) hp in (Inr (Whole a), hp'))"

subsection \<open>FaceLocator: \<^verbatim>\<open>detect_faces_opencv\<close> and \<^verbatim>\<open>detect_faces_deepface\<close>\<close>

definition detect_faces_opencv :: "libs \<Rightarrow> nat \<Rightarrow> heap \<Rightarrow> (error + region list) \<times> heap" where
  "detect_faces_opencv lib image_array hp =
     try_except
       (and_then (cv_cvtColor lib (cells hp image_array) hp)
          (\<lambda>gray hp1.
             case detectMultiScale lib (cells hp1 gray) (13 / 10) 5 of
               Inl e \<Rightarrow> (Inl e, hp1)
             | Inr faces \<Rightarrow> (Inr (map (\<lambda>(x, y, w, h). (x, y, w, h)) faces), hp1)))
       (\<lambda>e hp'.
          case py_print lib ''OpenCV detection error: '' of
            Some e' \<Rightarrow> (Inl e', hp')
          | None \<Rightarrow> (Inr [], hp'))"

definition dict_get :: "(string \<times> int) list \<Rightarrow> string \<Rightarrow> int \<Rightarrow> int" where
  \<comment> \<open>\<^verbatim>\<open>d.get(key, default)\<close>\<close>
  "dict_get d key dflt = (case map_of d key of None \<Rightarrow> dflt | Some v \<Rightarrow> v)"

definition facial_area_of :: "face \<Rightarrow> (string \<times> int) list" where
  \<comment> \<open>\<^verbatim>\<open>face.get('facial_area', {})\<close>\<close>
  "facial_area_of face = (case face of None \<Rightarrow> [] | Some d \<Rightarrow> d)"

definition rect_of :: "(string \<times> int) list \<Rightarrow> region" where
  \<comment> \<open>the four \<^verbatim>\<open>facial_area.get(key, 0)\<close> reads\<close>
  "rect_of facial_area =
     (dict_get facial_area ''x'' 0, dict_get facial_area ''y'' 0,
      dict_get facial_area ''w'' 0, dict_get facial_area ''h'' 0)"

fun face_locations_of :: "face list \<Rightarrow> region list" where
  \<comment> \<open>the loop over \<^verbatim>\<open>faces\<close>; \<^verbatim>\<open>if facial_area:\<close> is true of a non-empty dictionary\<close>
  "face_locations_of [] = []"
| "face_locations_of (face # faces) =
     (let facial_area = facial_area_of face
      in if facial_area \<noteq> []
         then rect_of facial_area # face_locations_of faces
         else face_locations_of faces)"

definition detect_faces_deepface :: "libs \<Rightarrow> nat \<Rightarrow> heap \<Rightarrow> (error + region list) \<times> heap" where
  "detect_faces_deepface lib image_array hp =
     try_except
       (case extract_faces lib (cells hp image_array) of
          Inl e \<Rightarrow> (Inl e, hp)
        | Inr faces \<Rightarrow> (Inr (face_locations_of faces), hp))
       (\<lambda>e hp'.
          case py_print lib ''DeepFace detection error: '' of
            Some e' \<Rightarrow> (Inl e', hp')
          | None \<Rightarrow> detect_faces_opencv lib image_array hp')"

subsection \<open>RegionAnonymizer: \<^verbatim>\<open>anonymize_face\<close>\<close>

definition anonymize_face ::
  "libs \<Rightarrow> nat \<Rightarrow> int \<Rightarrow> int \<Rightarrow> int \<Rightarrow> int \<Rightarrow> string \<Rightarrow> int \<Rightarrow> heap \<Rightarrow> (error + nat) \<times> heap" where
  "anonymize_face lib img x y w h method intensity hp =
     (let face_region = View img y (y + h) x (x + w)
      in and_then
           (if method = ''blur'' then
              (let kernel_size = (if intensity mod 2 = 1 then intensity else intensity + 1)
               in cv_GaussianBlur lib (deref hp face_region) (kernel_size, kernel_size) 0 hp)
            else if method = ''pixelate'' then
              \<comment> \<open>\<^verbatim>\<open>w // 0\<close> on Python integers; on the numpy integers of the cascade the
                  quotient is 0 and \<^verbatim>\<open>cv2.resize\<close> raises instead\<close>
              (if intensity = 0 then (Inl ZeroDivisionError, hp)
               else and_then
                      (cv_resize (linear_px lib) (deref hp face_region)
                         (w div intensity) (h div intensity) hp)
                      (\<lambda>small_face hp1. cv_resize (nearest_px lib) (deref hp1 small_face) w h hp1))
            else if method = ''mask'' then
              zeros_like (deref hp face_region) hp
            else (Inr face_region, hp))
           (\<lambda>anonymized hp2.
              case np_setitem (cells hp2 img) y (y + h) x (x + w) (deref hp2 anonymized) of
                Inl e \<Rightarrow> (Inl e, hp2)
              | Inr a' \<Rightarrow> (Inr img, hp2\<lparr>cells := (cells hp2)(img := a')\<rparr>)))"

subsection \<open>FrameProcessor: \<^verbatim>\<open>process_image\<close>\<close>

fun anonymize_each ::
  "libs \<Rightarrow> nat \<Rightarrow> string \<Rightarrow> int \<Rightarrow> region list \<Rightarrow> heap \<Rightarrow> (error + nat) \<times> heap" where
  \<comment> \<open>\<^verbatim>\<open>for (x, y, w, h) in face_locations: image_array = anonymize_face(...)\<close>\<close>
  "anonymize_each lib image_array method intensity [] hp = (Inr image_array, hp)"
| "anonymize_each lib image_array method intensity ((x, y, w, h) # rest) hp =
     and_then (anonymize_face lib image_array x y w h method intensity hp)
       (\<lambda>image_array' hp'. anonymize_each lib image_array' method intensity rest hp')"

definition process_image ::
  "libs \<Rightarrow> nat \<Rightarrow> string \<Rightarrow> int \<Rightarrow> heap \<Rightarrow> (error + nat \<times> nat) \<times> heap" where
  "process_image lib image_array method intensity hp =
     and_then (detect_faces_deepface lib image_array hp)
       (\<lambda>face_locations hp1.
          and_then (anonymize_each lib image_array method intensity face_locations hp1)
            (\<lambda>image_array' hp2. (Inr (image_array', length face_locations), hp2)))"

subsection \<open>VideoPipeline: \<^verbatim>\<open>process_video\<close>\<close>

text \<open>
  The capture and the writer are objects with a lifetime: each records whether
  \<^verbatim>\<open>release()\<close> has been called on it. \<open>cap_pos\<close> counts the frames that \<^verbatim>\<open>read()\<close>
  has delivered. The properties of a capture that could not be opened read as 0.
\<close>

record capture =
  cap_source :: "container option"
  cap_pending :: "ndarray list"
  cap_pos :: nat
  cap_released :: bool

record writer =
  out_path :: string
  out_fourcc :: string
  out_fps :: int
  out_size :: "int \<times> int"
  out_written :: "ndarray list"
  out_released :: bool

record vstate =
  cap :: capture
  out :: writer
  mem :: heap

datatype cap_prop =
  CAP_PROP_FPS | CAP_PROP_FRAME_WIDTH | CAP_PROP_FRAME_HEIGHT | CAP_PROP_FRAME_COUNT

definition VideoCapture :: "libs \<Rightarrow> string \<Rightarrow> capture" where
  "VideoCapture lib video_path =
     \<lparr>cap_source = open_file lib video_path,
      cap_pending = (case open_file lib video_path of None \<Rightarrow> [] | Some c \<Rightarrow> decodable c),
      cap_pos = 0, cap_released = False\<rparr>"

definition isOpened :: "capture \<Rightarrow> bool" where
  "isOpened c = (cap_source c \<noteq> None \<and> \<not> cap_released c)"

definition cap_get :: "capture \<Rightarrow> cap_prop \<Rightarrow> rat" where
  "cap_get c p =
     (case cap_source c of
        None \<Rightarrow> 0
      | Some src \<Rightarrow>
          (case p of
             CAP_PROP_FPS \<Rightarrow> prop_fps src
           | CAP_PROP_FRAME_WIDTH \<Rightarrow> of_int (prop_width src)
           | CAP_PROP_FRAME_HEIGHT \<Rightarrow> of_int (prop_height src)
           | CAP_PROP_FRAME_COUNT \<Rightarrow> of_int (prop_frame_count src)))"

definition py_int :: "rat \<Rightarrow> int" where
  \<comment> \<open>\<^verbatim>\<open>int(x)\<close> on a finite float: truncation towards zero\<close>
  "py_int q = (if 0 \<le> q then \<lfloor>q\<rfloor> else \<lceil>q\<rceil>)"

definition cap_read :: "capture \<Rightarrow> heap \<Rightarrow> nat option \<times> capture \<times> heap" where
  \<comment> \<open>\<^verbatim>\<open>ret, frame = cap.read()\<close>: \<open>None\<close> is \<^verbatim>\<open>ret == False\<close>; a delivered frame is a
      new array\<close>
  "cap_read c hp =
     (if \<not> isOpened c then (None, c, hp)
      else case cap_pending c of
             [] \<Rightarrow> (None, c, hp)
           | f # rest \<Rightarrow>
               (let (a, hp') = alloc f hp
                in (Some a, c\<lparr>cap_pending := rest, cap_pos := Suc (cap_pos c)\<rparr>, hp')))"

definition cap_release :: "capture \<Rightarrow> capture" where
  "cap_release c = c\<lparr>cap_released := True\<rparr>"

definition VideoWriter :: "string \<Rightarrow> string \<Rightarrow> int \<Rightarrow> int \<times> int \<Rightarrow> writer" where
  "VideoWriter output_path fourcc fps frame_size =
     \<lparr>out_path = output_path, out_fourcc = fourcc, out_fps = fps, out_size = frame_size,
      out_written = [], out_released = False\<rparr>"

definition out_write :: "writer \<Rightarrow> ndarray \<Rightarrow> writer" where
  \<comment> \<open>\<^verbatim>\<open>out.write(frame)\<close> hands the frame to the encoder\<close>
  "out_write wr a = wr\<lparr>out_written := out_written wr @ [a]\<rparr>"

definition out_release :: "writer \<Rightarrow> writer" where
  "out_release wr = wr\<lparr>out_released := True\<rparr>"

definition np_copy :: "nat \<Rightarrow> heap \<Rightarrow> nat \<times> heap" where
  \<comment> \<open>\<^verbatim>\<open>frame.copy()\<close>\<close>
  "np_copy a hp = alloc (cells hp a) hp"

definition report_progress :: "libs \<Rightarrow> nat \<Rightarrow> int \<Rightarrow> error option" where
  \<comment> \<open>the progress tracking at the end of the loop body: every tenth frame the percentage
      \<^verbatim>\<open>(frame_count / total_frames) * 100\<close> is computed, which raises ZeroDivisionError when
      the container reports no frame count, and a line is printed; \<open>None\<close> when nothing is
      raised\<close>
  "report_progress lib frame_count total_frames =
     (if frame_count mod 10 = 0
      then (if total_frames = 0 then Some ZeroDivisionError else py_print lib ''Processing: '')
      else None)"

text \<open>
  The \<^verbatim>\<open>while cap.isOpened()\<close> loop. An exception leaves the loop with the state as it is
  at that point.
\<close>

function video_loop ::
  "libs \<Rightarrow> string \<Rightarrow> int \<Rightarrow> int \<Rightarrow> vstate \<Rightarrow> nat \<Rightarrow> nat \<Rightarrow> (error + nat \<times> nat) \<times> vstate" where
  "video_loop lib method intensity total_frames st frame_count total_faces =
     (if \<not> isOpened (cap st) then (Inr (total_faces, frame_count), st)
      else case cap_read (cap st) (mem st) of
             (None, c1, hp1) \<Rightarrow> (Inr (total_faces, frame_count), st\<lparr>cap := c1, mem := hp1\<rparr>)
           | (Some frame, c1, hp1) \<Rightarrow>
               (let (copy, hp2) = np_copy frame hp1
                in case process_image lib copy method intensity hp2 of
                     (Inl e, hp3) \<Rightarrow> (Inl e, st\<lparr>cap := c1, mem := hp3\<rparr>)
                   | (Inr (processed_frame, faces_count), hp3) \<Rightarrow>
                       (let st' = st\<lparr>cap := c1,
                                      out := out_write (out st) (cells hp3 processed_frame),
                                      mem := hp3\<rparr>
                        in case report_progress lib (Suc frame_count) total_frames of
                             Some e \<Rightarrow> (Inl e, st')
                           | None \<Rightarrow>
                               video_loop lib method intensity total_frames st'
                                 (Suc frame_count) (total_faces + faces_count))))"
  by pat_completeness auto
termination
  by (relation "measure (\<lambda>(lib, method, intensity, total_frames, st, frame_count, total_faces).
                  length (cap_pending (cap st)))")
     (auto simp: cap_read_def split: if_splits list.splits prod.splits)

definition process_video ::
  "libs \<Rightarrow> string \<Rightarrow> string \<Rightarrow> string \<Rightarrow> int \<Rightarrow> heap \<Rightarrow> (error + nat \<times> nat) \<times> vstate" where
  "process_video lib video_path output_path method intensity hp =
     (let cap0 = VideoCapture lib video_path;
          fps = py_int (cap_get cap0 CAP_PROP_FPS);
          width = py_int (cap_get cap0 CAP_PROP_FRAME_WIDTH);
          height = py_int (cap_get cap0 CAP_PROP_FRAME_HEIGHT);
          total_frames = py_int (cap_get cap0 CAP_PROP_FRAME_COUNT);
          out0 = VideoWriter output_path ''mp4v'' fps (width, height)
      in case video_loop lib method intensity total_frames
                \<lparr>cap = cap0, out = out0, mem = hp\<rparr> 0 0 of
           (Inl e, st) \<Rightarrow> (Inl e, st)
         | (Inr (total_faces, frame_count), st) \<Rightarrow>
             (Inr (total_faces, frame_count),
              st\<lparr>cap := cap_release (cap st), out := out_release (out st)\<rparr>))"

subsection \<open>Predicates of the specification\<close>



subsection \<open>Concrete inputs\<close>

text \<open>
  A 3 by 3 BGR frame at address 0 of a heap, libraries whose primary detector answers with
  a fixed result, and a container holding given frames at a given rate. The blur and the
  interpolation kernels of \<open>example_libs\<close> are stand-ins: the blur rejects an empty source
  and a kernel size that is not positive and odd, as OpenCV does, and otherwise returns its
  source; no statement below depends on the pixel values they produce.
\<close>

definition example_frame :: ndarray where
  "example_frame =
     [[[1, 1, 1], [2, 2, 2], [3, 3, 3]],
      [[4, 4, 4], [5, 5, 5], [6, 6, 6]],
      [[7, 7, 7], [8, 8, 8], [9, 9, 9]]]"

definition example_heap :: heap where
  "example_heap = \<lparr>cells = (\<lambda>_. [])(0 := example_frame), next_free = 1\<rparr>"

definition example_libs :: "(error + face list) \<Rightarrow> container option \<Rightarrow> libs" where
  "example_libs detected video =
     \<lparr>extract_faces = (\<lambda>_. detected),
      cvtColor_gray = (\<lambda>a. if is_empty a then Inl CvError else Inr (map (map (take 1)) a)),
      detectMultiScale = (\<lambda>_ _ _. Inr []),
      GaussianBlur = (\<lambda>src ksize sigmaX.
                        if is_empty src \<or> fst ksize \<le> 0 \<or> fst ksize mod 2 \<noteq> 1
                        then Inl CvError else Inr src),
      linear_px = (\<lambda>src rows cols r c. src ! (r * length src div rows) ! (c * ncols src div cols)),
      nearest_px = (\<lambda>src rows cols r c. src ! (r * length src div rows) ! (c * ncols src div cols)),
      py_print = (\<lambda>_. None),
      open_file = (\<lambda>path. if path = ''in.mp4'' then video else None)\<rparr>"

definition example_video :: "rat \<Rightarrow> ndarray list \<Rightarrow> container" where
  "example_video rate fs =
     \<lparr>prop_fps = rate, prop_width = 3, prop_height = 3,
      prop_frame_count = int (length fs), decodable = fs\<rparr>"

definition small_face :: face where
  "small_face = Some [(''x'', 0), (''y'', 0), (''w'', 2), (''h'', 2)]"

definition leaking_run :: "(error + nat \<times> nat) \<times> vstate" where
  \<comment> \<open>a one-frame video with a face 2 pixels wide, pixelated with intensity 3\<close>
  "leaking_run =
     process_video (example_libs (Inr [small_face]) (Some (example_video 25 [example_frame])))
       ''in.mp4'' ''out.mp4'' ''pixelate'' 3 example_heap"

definition half_rate_run :: "(error + nat \<times> nat) \<times> vstate" where
  \<comment> \<open>a one-frame video at 12.5 frames per second in which no face is found\<close>
  "half_rate_run =
     process_video (example_libs (Inr []) (Some (example_video (25 / 2) [example_frame])))
       ''in.mp4'' ''out.mp4'' ''blur'' 51 example_heap"

section \<open>Properties\<close>

subsection \<open>Slices and region assignment\<close>

lemma alloc_simps [simp]:
  "fst (alloc a hp) = next_free hp"
  "cells (snd (alloc a hp)) = (cells hp)(next_free hp := a)"
  "next_free (snd (alloc a hp)) = Suc (next_free hp)"
  by (simp_all add: alloc_def)

lemma slice_index_le: "slice_index i n \<le> n"
  by (auto simp: slice_index_def)

lemma slice_lo_len_le: "slice_lo i j n + slice_len i j n \<le> n"
  using slice_index_le [of i n] slice_index_le [of j n]
  by (simp add: slice_lo_def slice_len_def)

lemma slice_inside:
  assumes "0 \<le> i" "i \<le> j" "j \<le> int n"
  shows "slice_lo i j n = nat i" "slice_len i j n = nat (j - i)"
  using assms by (auto simp: slice_lo_def slice_len_def slice_index_def)

lemma take_drop_sandwich:
  "length xs = lo \<Longrightarrow> length ys = n \<Longrightarrow> take n (drop lo (xs @ ys @ zs)) = ys"
  by simp

lemma take_slice_drop: "take lo xs @ take n (drop lo xs) @ drop (lo + n) xs = xs"
  by (metis add.commute append_take_drop_id drop_drop)

lemma in_slice_set: "x \<in> set (take n (drop m xs)) \<Longrightarrow> x \<in> set xs"
  by (auto dest!: in_set_takeD in_set_dropD)

lemma ncols_Cons [simp]: "ncols (row # a) = length row"
  by (simp add: ncols_def)

lemma ncols_Nil [simp]: "ncols [] = 0"
  by (simp add: ncols_def)

lemma is_array_row: "is_array a \<Longrightarrow> row \<in> set a \<Longrightarrow> length row = ncols a"
  by (simp add: is_array_def list_all_iff)

lemma ncols_eqI:
  assumes "length a' = length a" "\<forall>row \<in> set a'. length row = ncols a"
  shows "ncols a' = ncols a"
proof (cases a')
  case Nil
  with assms(1) show ?thesis by simp
next
  case (Cons row rest)
  with assms show ?thesis by simp
qed

lemma stretch_same [simp]: "length v = n \<Longrightarrow> stretch n v = v"
  by (simp add: stretch_def)

lemma np_setitem_exact:
  assumes v_rows: "length v = slice_len r0 r1 (length a)"
    and v_cols: "\<forall>row \<in> set v. length row = slice_len c0 c1 (ncols a)"
  shows "np_setitem a r0 r1 c0 c1 v =
     Inr (take (slice_lo r0 r1 (length a)) a
          @ map2 (\<lambda>old new. take (slice_lo c0 c1 (ncols a)) old @ new
                      @ drop (slice_lo c0 c1 (ncols a) + slice_len c0 c1 (ncols a)) old)
                 (take (slice_len r0 r1 (length a)) (drop (slice_lo r0 r1 (length a)) a)) v
          @ drop (slice_lo r0 r1 (length a) + slice_len r0 r1 (length a)) a)"
proof -
  have b: "broadcastable (slice_len r0 r1 (length a)) (slice_len c0 c1 (ncols a)) v"
    using v_rows v_cols by (simp add: broadcastable_def list_all_iff)
  have m: "map2 (\<lambda>old new. take (slice_lo c0 c1 (ncols a)) old @ stretch (slice_len c0 c1 (ncols a)) new
                      @ drop (slice_lo c0 c1 (ncols a) + slice_len c0 c1 (ncols a)) old)
                 (take (slice_len r0 r1 (length a)) (drop (slice_lo r0 r1 (length a)) a)) v
         = map2 (\<lambda>old new. take (slice_lo c0 c1 (ncols a)) old @ new
                      @ drop (slice_lo c0 c1 (ncols a) + slice_len c0 c1 (ncols a)) old)
                 (take (slice_len r0 r1 (length a)) (drop (slice_lo r0 r1 (length a)) a)) v"
    using v_cols by (auto dest: set_zip_rightD)
  show ?thesis
    using b v_rows m by (simp add: np_setitem_def Let_def)
qed

lemma np_getitem_rows: "length (np_getitem a r0 r1 c0 c1) = slice_len r0 r1 (length a)"
  using slice_lo_len_le [of r0 r1 "length a"] by (simp add: np_getitem_def)

lemma np_getitem_cols:
  assumes "is_array a" "row \<in> set (np_getitem a r0 r1 c0 c1)"
  shows "length row = slice_len c0 c1 (ncols a)"
proof -
  from assms(2) obtain old where old: "old \<in> set a"
    and row: "row = take (slice_len c0 c1 (ncols a)) (drop (slice_lo c0 c1 (ncols a)) old)"
    by (auto simp: np_getitem_def dest!: in_set_takeD in_set_dropD)
  have "length old = ncols a" using assms(1) old by (rule is_array_row)
  then show ?thesis
    using row slice_lo_len_le [of c0 c1 "ncols a"] by simp
qed

lemma put_back_rows:
  "map2 (\<lambda>old new. take clo old @ new @ drop (clo + cols) old) olds
     (map (\<lambda>row. take cols (drop clo row)) olds) = olds"
  by (induction olds) (simp_all add: take_slice_drop)

lemma np_setitem_getitem_id:
  assumes "is_array a"
  shows "np_setitem a r0 r1 c0 c1 (np_getitem a r0 r1 c0 c1) = Inr a"
proof -
  let ?rlo = "slice_lo r0 r1 (length a)" and ?rows = "slice_len r0 r1 (length a)"
  let ?clo = "slice_lo c0 c1 (ncols a)" and ?cols = "slice_len c0 c1 (ncols a)"
  let ?olds = "take ?rows (drop ?rlo a)"
  have "map2 (\<lambda>old new. take ?clo old @ new @ drop (?clo + ?cols) old) ?olds
          (np_getitem a r0 r1 c0 c1) = ?olds"
    unfolding np_getitem_def by (rule put_back_rows)
  moreover have "take ?rlo a @ ?olds @ drop (?rlo + ?rows) a = a"
    by (rule take_slice_drop)
  ultimately show ?thesis
    using np_setitem_exact [of "np_getitem a r0 r1 c0 c1" r0 r1 a c0 c1]
      np_getitem_rows [of a r0 r1 c0 c1] np_getitem_cols [OF assms]
    by simp
qed

lemma np_setitem_shape:
  assumes arr: "is_array a"
    and v_rows: "length v = slice_len r0 r1 (length a)"
    and v_cols: "\<forall>row \<in> set v. length row = slice_len c0 c1 (ncols a)"
    and upd: "np_setitem a r0 r1 c0 c1 v = Inr a'"
  shows "length a' = length a" and "\<forall>row \<in> set a'. length row = ncols a"
proof -
  let ?rlo = "slice_lo r0 r1 (length a)" and ?rows = "slice_len r0 r1 (length a)"
  let ?clo = "slice_lo c0 c1 (ncols a)" and ?cols = "slice_len c0 c1 (ncols a)"
  let ?olds = "take ?rows (drop ?rlo a)"
  let ?mid = "map2 (\<lambda>old new. take ?clo old @ new @ drop (?clo + ?cols) old) ?olds v"
  have "np_setitem a r0 r1 c0 c1 v = Inr (take ?rlo a @ ?mid @ drop (?rlo + ?rows) a)"
    by (rule np_setitem_exact [OF v_rows v_cols])
  then have a': "a' = take ?rlo a @ ?mid @ drop (?rlo + ?rows) a"
    unfolding upd by (simp only: sum.inject)
  have r: "?rlo + ?rows \<le> length a" by (rule slice_lo_len_le)
  have c: "?clo + ?cols \<le> ncols a" by (rule slice_lo_len_le)
  have "length ?mid = ?rows"
    using r v_rows by simp
  then show "length a' = length a"
    using r unfolding a' by simp
  have mid: "length row = ncols a" if "row \<in> set ?mid" for row
  proof -
    from that obtain old new where on: "(old, new) \<in> set (zip ?olds v)"
      and row: "row = take ?clo old @ new @ drop (?clo + ?cols) old"
      by auto
    from on have old: "old \<in> set a"
      by (intro in_slice_set [of old ?rows ?rlo a] set_zip_leftD [of old new ?olds v])
    from on have new: "new \<in> set v"
      by (rule set_zip_rightD)
    have "length old = ncols a"
      using arr old by (rule is_array_row)
    moreover have "length new = ?cols"
      using v_cols new by (rule bspec)
    ultimately have "length old = ncols a" "length new = ?cols" .
    then show ?thesis using c unfolding row by simp
  qed
  have pre: "length row = ncols a" if "row \<in> set (take ?rlo a)" for row
    using arr in_set_takeD [OF that] by (rule is_array_row)
  have post: "length row = ncols a" if "row \<in> set (drop (?rlo + ?rows) a)" for row
    using arr in_set_dropD [OF that] by (rule is_array_row)
  show "\<forall>row \<in> set a'. length row = ncols a"
  proof
    fix row assume "row \<in> set a'"
    then consider "row \<in> set (take ?rlo a)" | "row \<in> set ?mid"
      | "row \<in> set (drop (?rlo + ?rows) a)"
      unfolding a' set_append by blast
    then show "length row = ncols a"
      by cases (rule pre, assumption, rule mid, assumption, rule post, assumption)
  qed
qed

lemma np_getitem_setitem:
  assumes arr: "is_array a"
    and v_rows: "length v = slice_len r0 r1 (length a)"
    and v_cols: "\<forall>row \<in> set v. length row = slice_len c0 c1 (ncols a)"
    and upd: "np_setitem a r0 r1 c0 c1 v = Inr a'"
  shows "np_getitem a' r0 r1 c0 c1 = v"
proof -
  let ?rlo = "slice_lo r0 r1 (length a)" and ?rows = "slice_len r0 r1 (length a)"
  let ?clo = "slice_lo c0 c1 (ncols a)" and ?cols = "slice_len c0 c1 (ncols a)"
  let ?olds = "take ?rows (drop ?rlo a)"
  let ?put = "\<lambda>old new. take ?clo old @ new @ drop (?clo + ?cols) old"
  let ?mid = "map2 ?put ?olds v"
  have "np_setitem a r0 r1 c0 c1 v = Inr (take ?rlo a @ ?mid @ drop (?rlo + ?rows) a)"
    by (rule np_setitem_exact [OF v_rows v_cols])
  then have a': "a' = take ?rlo a @ ?mid @ drop (?rlo + ?rows) a"
    unfolding upd by (simp only: sum.inject)
  have r: "?rlo + ?rows \<le> length a" by (rule slice_lo_len_le)
  have c: "?clo + ?cols \<le> ncols a" by (rule slice_lo_len_le)
  have len: "length a' = length a"
    using arr v_rows v_cols upd by (rule np_setitem_shape(1))
  have nc: "ncols a' = ncols a"
    using len np_setitem_shape(2) [OF arr v_rows v_cols upd] by (rule ncols_eqI)
  have olds: "length ?olds = length v" using r v_rows by simp
  have mid: "take ?rows (drop ?rlo a') = ?mid"
    unfolding a' using r olds v_rows by (intro take_drop_sandwich) simp_all
  have inner: "take ?cols (drop ?clo (?put old new)) = new"
    if mem: "(old, new) \<in> set (zip ?olds v)" for old new
  proof -
    from mem have "old \<in> set a"
      by (intro in_slice_set [of old ?rows ?rlo a] set_zip_leftD [of old new ?olds v])
    with arr have "length old = ncols a" by (rule is_array_row)
    moreover from mem have "new \<in> set v" by (rule set_zip_rightD)
    with v_cols have "length new = ?cols" by (rule bspec)
    ultimately show ?thesis using c by simp
  qed
  have "map (\<lambda>row. take ?cols (drop ?clo row)) ?mid
          = map (\<lambda>(old, new). take ?cols (drop ?clo (?put old new))) (zip ?olds v)"
    by (simp add: comp_def case_prod_unfold)
  also have "\<dots> = map snd (zip ?olds v)"
    by (rule map_cong [OF refl]) (use inner in \<open>simp add: case_prod_unfold\<close>)
  also have "\<dots> = v"
    using olds by (rule map_snd_zip)
  finally show ?thesis
    unfolding np_getitem_def len nc mid .
qed

lemma np_zeros_like_rows: "length (np_zeros_like a) = length a"
  by (simp add: np_zeros_like_def)

lemma np_zeros_like_cols:
  assumes "\<forall>row \<in> set a. length row = n"
  shows "\<forall>row \<in> set (np_zeros_like a). length row = n"
  using assms by (auto simp: np_zeros_like_def)

lemma np_zeros_like_zero:
  "list_all (list_all (list_all (\<lambda>ch. ch = 0))) (np_zeros_like a)"
  by (simp add: np_zeros_like_def list_all_iff)

lemma np_zeros_like_lengths: "map (map length) (np_zeros_like a) = map (map length) a"
  by (simp add: np_zeros_like_def comp_def)

subsection \<open>The concrete inputs\<close>

lemma example_frame_is_array: "is_array example_frame"
  by (simp add: is_array_def example_frame_def)

lemma example_heap_cell [simp]: "cells example_heap 0 = example_frame"
  by (simp add: example_heap_def)

lemma example_heap_next [simp]: "next_free example_heap = 1"
  by (simp add: example_heap_def)

lemma example_frame_shape [simp]: "length example_frame = 3" "ncols example_frame = 3"
  by (simp_all add: example_frame_def)

lemma example_frame_nonempty [simp]: "example_frame \<noteq> []"
  by (simp add: example_frame_def)

subsection \<open>RegionAnonymizer\<close>

text \<open>
  C6. The blur method blurs the region with a kernel size that is odd: the intensity when
  it is odd, the intensity plus 1 when it is even. For every intensity and every region,
  the outcome of \<^verbatim>\<open>anonymize_face\<close> is the outcome of the Gaussian blur of the region at that
  kernel size: when the library raises, that exception leaves \<^verbatim>\<open>anonymize_face\<close> and the
  frame is untouched; when it returns a blurred array of the shape of the region, the
  region of the frame holds that array afterwards.
\<close>

theorem blur_uses_odd_kernel:
  assumes arr: "is_array (cells hp img)" and live: "img < next_free hp"
  shows "(let k = (if odd intensity then intensity else intensity + 1);
              before = np_getitem (cells hp img) y (y + h) x (x + w)
          in odd k \<and>
             (\<forall>e. GaussianBlur lib before (k, k) 0 = Inl e \<longrightarrow>
                  anonymize_face lib img x y w h ''blur'' intensity hp = (Inl e, hp)) \<and>
             (\<forall>blurred. GaussianBlur lib before (k, k) 0 = Inr blurred \<and>
                         map length blurred = map length before \<longrightarrow>
                  (\<exists>hp'. anonymize_face lib img x y w h ''blur'' intensity hp = (Inr img, hp') \<and>
                         np_getitem (cells hp' img) y (y + h) x (x + w) = blurred)))"
proof -
  define k where "k = (if odd intensity then intensity else intensity + 1)"
  let ?a = "cells hp img"
  let ?before = "np_getitem ?a y (y + h) x (x + w)"
  have k_src: "(if intensity mod 2 = 1 then intensity else intensity + 1) = k"
    by (simp add: k_def odd_iff_mod_2_eq_one)
  have odd_k: "odd k"
    by (simp add: k_def)
  have raises: "anonymize_face lib img x y w h ''blur'' intensity hp = (Inl e, hp)"
    if "GaussianBlur lib ?before (k, k) 0 = Inl e" for e
    using that by (simp add: anonymize_face_def and_then_def cv_GaussianBlur_def k_src)
  have returns: "\<exists>hp'. anonymize_face lib img x y w h ''blur'' intensity hp = (Inr img, hp') \<and>
                       np_getitem (cells hp' img) y (y + h) x (x + w) = blurred"
    if blur: "GaussianBlur lib ?before (k, k) 0 = Inr blurred"
      and shape: "map length blurred = map length ?before" for blurred
  proof -
    have "length blurred = length ?before"
      using shape by (rule map_eq_imp_length_eq)
    then have rows: "length blurred = slice_len y (y + h) (length ?a)"
      by (simp add: np_getitem_rows)
    have cols: "\<forall>row \<in> set blurred. length row = slice_len x (x + w) (ncols ?a)"
    proof
      fix row assume "row \<in> set blurred"
      then have "length row \<in> set (map length ?before)"
        unfolding shape [symmetric] by simp
      then obtain old where "old \<in> set ?before" "length row = length old"
        by auto
      then show "length row = slice_len x (x + w) (ncols ?a)"
        using np_getitem_cols [OF arr] by simp
    qed
    have "np_setitem ?a y (y + h) x (x + w) blurred \<noteq> Inl ValueError"
      using rows cols by (simp add: np_setitem_def Let_def broadcastable_def list_all_iff)
    then obtain a' where upd: "np_setitem ?a y (y + h) x (x + w) blurred = Inr a'"
      by (auto simp: np_setitem_def Let_def split: if_splits)
    define hp' where
      "hp' = hp\<lparr>cells := (cells hp)(next_free hp := blurred, img := a'),
                 next_free := Suc (next_free hp)\<rparr>"
    have "anonymize_face lib img x y w h ''blur'' intensity hp = (Inr img, hp')"
      using blur upd live
      by (simp add: anonymize_face_def and_then_def cv_GaussianBlur_def alloc_def k_src hp'_def)
    moreover have "cells hp' img = a'"
      by (simp add: hp'_def)
    moreover have "np_getitem a' y (y + h) x (x + w) = blurred"
      using arr rows cols upd by (rule np_getitem_setitem)
    ultimately show ?thesis by auto
  qed
  show ?thesis
    unfolding Let_def k_def [symmetric] using odd_k raises returns by blast
qed

text \<open>
  C6, at the even intensity 50 on the region \<open>(1, 1, 2, 2)\<close>, with a blur that rejects even
  kernel sizes and otherwise returns its source: the call returns and the region is what
  the blur gave at kernel size 51.
\<close>

theorem blur_uses_odd_kernel_witness:
  "is_array (cells example_heap 0) \<and> 0 < next_free example_heap \<and>
   GaussianBlur (example_libs (Inr []) None) (np_getitem (cells example_heap 0) 1 3 1 3) (51, 51) 0
     = Inr [[[5, 5, 5], [6, 6, 6]], [[8, 8, 8], [9, 9, 9]]] \<and>
   (\<exists>hp'. anonymize_face (example_libs (Inr []) None) 0 1 1 2 2 ''blur'' 50 example_heap
             = (Inr 0, hp') \<and>
          np_getitem (cells hp' 0) 1 3 1 3 = [[[5, 5, 5], [6, 6, 6]], [[8, 8, 8], [9, 9, 9]]])"
proof -
  have arr: "is_array (cells example_heap 0)"
    by (simp add: example_frame_is_array)
  have live: "0 < next_free example_heap"
    by simp
  have before: "np_getitem (cells example_heap 0) 1 3 1 3
                  = [[[5, 5, 5], [6, 6, 6]], [[8, 8, 8], [9, 9, 9]]]"
    by (simp add: np_getitem_def slice_lo_def slice_len_def slice_index_def example_frame_def)
  have blur: "GaussianBlur (example_libs (Inr []) None) (np_getitem (cells example_heap 0) 1 3 1 3)
                (51, 51) 0 = Inr [[[5, 5, 5], [6, 6, 6]], [[8, 8, 8], [9, 9, 9]]]"
    unfolding before by (simp add: example_libs_def is_empty_def)
  from blur_uses_odd_kernel [OF arr live, of 50 1 2 1 2 "example_libs (Inr []) None"] blur before
  have "\<exists>hp'. anonymize_face (example_libs (Inr []) None) 0 1 1 2 2 ''blur'' 50 example_heap
                 = (Inr 0, hp') \<and>
              np_getitem (cells hp' 0) 1 3 1 3 = [[[5, 5, 5], [6, 6, 6]], [[8, 8, 8], [9, 9, 9]]]"
    by (simp add: Let_def)
  with arr live blur show ?thesis by blast
qed

lemma floordiv_small:
  assumes "0 < (d::int)" and "n < d"
  shows "n div d \<le> 0"
proof -
  have "n div d \<le> (d - 1) div d"
    using assms by (intro zdiv_mono1) simp_all
  also have "(d - 1) div d = 0"
    using assms(1) by (simp add: div_pos_pos_trivial)
  finally show ?thesis .
qed

text \<open>
  With a positive intensity larger than the width or the height of the region, the
  downscale target \<^verbatim>\<open>(w // intensity, h // intensity)\<close> has a dimension that is not
  positive, and \<^verbatim>\<open>cv2.resize\<close> raises: the pipeline has no guard for this case.
\<close>

lemma pixelate_small_region_raises:
  assumes "0 < intensity" and "w < intensity \<or> h < intensity"
  shows "anonymize_face lib img x y w h ''pixelate'' intensity hp = (Inl CvError, hp)"
proof -
  have "w div intensity \<le> 0 \<or> h div intensity \<le> 0"
    using assms floordiv_small [of intensity w] floordiv_small [of intensity h] by blast
  then show ?thesis
    using assms(1) by (auto simp: anonymize_face_def and_then_def cv_resize_def)
qed

text \<open>
  C1. Pixelate with an intensity larger than the width or height of a region inside the
  frame must not crash. The code does: on the 3 by 3 frame, the region \<open>(0, 0, 2, 2)\<close>
  pixelated with intensity 3 gives the target size \<open>(0, 0)\<close> and \<^verbatim>\<open>cv2.resize\<close> raises;
  the exception leaves \<^verbatim>\<open>anonymize_face\<close> and the frame is not anonymized.
\<close>

theorem pixelate_raises_on_narrow_face:
  "anonymize_face (example_libs (Inr []) None) 0 0 0 2 2 ''pixelate'' 3 example_heap
     = (Inl CvError, example_heap)"
  by (simp add: anonymize_face_def and_then_def cv_resize_def)

text \<open>
  C7. For a region fully inside the frame, the mask method returns normally, for any
  intensity; afterwards the region of the frame is all zero (every channel of every pixel
  in it), it has the \<open>h\<close> rows and \<open>w\<close> columns and the channel counts it had before,
  and the frame keeps its dimensions.
\<close>

theorem mask_blacks_out_region:
  assumes arr: "is_array (cells hp img)"
    and live: "img < next_free hp"
    and inside: "0 \<le> x" "0 \<le> y" "0 < w" "0 < h"
      "x + w \<le> int (ncols (cells hp img))" "y + h \<le> int (length (cells hp img))"
  shows "\<exists>hp'. anonymize_face lib img x y w h ''mask'' intensity hp = (Inr img, hp') \<and>
     (let before = np_getitem (cells hp img) y (y + h) x (x + w);
          after = np_getitem (cells hp' img) y (y + h) x (x + w)
      in list_all (list_all (list_all (\<lambda>ch. ch = 0))) after \<and>
         length after = nat h \<and> list_all (\<lambda>row. length row = nat w) after \<and>
         map (map length) after = map (map length) before \<and>
         length (cells hp' img) = length (cells hp img) \<and>
         ncols (cells hp' img) = ncols (cells hp img))"
proof -
  let ?a = "cells hp img"
  let ?before = "np_getitem ?a y (y + h) x (x + w)"
  let ?z = "np_zeros_like ?before"
  have rows: "length ?z = slice_len y (y + h) (length ?a)"
    by (simp add: np_zeros_like_rows np_getitem_rows)
  have "\<forall>row \<in> set ?before. length row = slice_len x (x + w) (ncols ?a)"
    using np_getitem_cols [OF arr] by blast
  then have cols: "\<forall>row \<in> set ?z. length row = slice_len x (x + w) (ncols ?a)"
    by (rule np_zeros_like_cols)
  have "broadcastable (slice_len y (y + h) (length ?a)) (slice_len x (x + w) (ncols ?a)) ?z"
    using rows cols by (simp add: broadcastable_def list_all_iff)
  then obtain a' where upd: "np_setitem ?a y (y + h) x (x + w) ?z = Inr a'"
    by (simp add: np_setitem_def Let_def)
  define hp' where
    "hp' = hp\<lparr>cells := (cells hp)(next_free hp := ?z, img := a'), next_free := Suc (next_free hp)\<rparr>"
  have run: "anonymize_face lib img x y w h ''mask'' intensity hp = (Inr img, hp')"
    using upd live by (simp add: anonymize_face_def and_then_def zeros_like_def alloc_def hp'_def)
  have cell: "cells hp' img = a'"
    by (simp add: hp'_def)
  have after: "np_getitem a' y (y + h) x (x + w) = ?z"
    using arr rows cols upd by (rule np_getitem_setitem)
  have len: "length a' = length ?a"
    using arr rows cols upd by (rule np_setitem_shape(1))
  have nc: "ncols a' = ncols ?a"
    using len np_setitem_shape(2) [OF arr rows cols upd] by (rule ncols_eqI)
  have h: "length ?z = nat h"
    using inside by (simp add: rows slice_inside)
  have w: "list_all (\<lambda>row. length row = nat w) ?z"
    using cols inside by (simp add: list_all_iff slice_inside)
  show ?thesis
    unfolding Let_def
    by (intro exI [of _ hp'] conjI)
       (simp_all only: run cell after len nc h w np_zeros_like_zero np_zeros_like_lengths)
qed

text \<open>
  C7, for the region \<open>(1, 1, 2, 2)\<close> of the 3 by 3 frame.
\<close>

theorem mask_blacks_out_region_witness:
  "is_array (cells example_heap 0) \<and> 0 < next_free example_heap \<and>
   (\<exists>hp'. anonymize_face (example_libs (Inr []) None) 0 1 1 2 2 ''mask'' 51 example_heap = (Inr 0, hp') \<and>
      np_getitem (cells hp' 0) 1 3 1 3 = [[[0, 0, 0], [0, 0, 0]], [[0, 0, 0], [0, 0, 0]]] \<and>
      length (cells hp' 0) = 3 \<and> ncols (cells hp' 0) = 3)"
proof -
  have arr: "is_array (cells example_heap 0)"
    by (simp add: example_frame_is_array)
  have live: "0 < next_free example_heap"
    by simp
  from mask_blacks_out_region [OF arr live, of 1 1 2 2 "example_libs (Inr []) None" 51]
  obtain hp' where run: "anonymize_face (example_libs (Inr []) None) 0 1 1 2 2 ''mask'' 51 example_heap
                           = (Inr 0, hp')"
    and shape: "length (cells hp' 0) = 3" "ncols (cells hp' 0) = 3"
    by (auto simp: Let_def)
  have "hp' = snd (anonymize_face (example_libs (Inr []) None) 0 1 1 2 2 ''mask'' 51 example_heap)"
    by (simp add: run)
  then have "np_getitem (cells hp' 0) 1 3 1 3 = [[[0, 0, 0], [0, 0, 0]], [[0, 0, 0], [0, 0, 0]]]"
    by (simp add: anonymize_face_def and_then_def zeros_like_def alloc_def np_setitem_def
        np_getitem_def np_zeros_like_def broadcastable_def stretch_def slice_lo_def slice_len_def
        slice_index_def example_heap_def example_frame_def ncols_def Let_def)
  with arr live run shape show ?thesis by blast
qed

text \<open>
  C9. A method other than blur, pixelate and mask assigns the region to itself: the call
  returns the frame without raising and the heap, hence every pixel of the frame, is
  unchanged. This holds for every region, also one outside the frame or with negative
  coordinates, and for every intensity.
\<close>

theorem unrecognized_method_is_noop:
  assumes arr: "is_array (cells hp img)"
    and other: "method \<noteq> ''blur''" "method \<noteq> ''pixelate''" "method \<noteq> ''mask''"
  shows "anonymize_face lib img x y w h method intensity hp = (Inr img, hp)"
proof -
  have "np_setitem (cells hp img) y (y + h) x (x + w)
          (np_getitem (cells hp img) y (y + h) x (x + w)) = Inr (cells hp img)"
    using arr by (rule np_setitem_getitem_id)
  then show ?thesis
    using other by (simp add: anonymize_face_def and_then_def)
qed

text \<open>
  C9, for the method \<open>sepia\<close>.
\<close>

theorem unrecognized_method_is_noop_witness:
  "is_array (cells example_heap 0) \<and>
   anonymize_face (example_libs (Inr []) None) 0 1 1 2 2 ''sepia'' 51 example_heap
     = (Inr 0, example_heap)"
  using unrecognized_method_is_noop
    [of example_heap 0 "''sepia''" "example_libs (Inr []) None" 1 1 2 2 51]
  by (simp add: example_frame_is_array)

subsection \<open>FaceLocator\<close>

lemma detect_faces_opencv_cases:
  "detect_faces_opencv lib image_array hp =
     (case cvtColor_gray lib (cells hp image_array) of
        Inl e \<Rightarrow>
          (if is_Exception e
           then (case py_print lib ''OpenCV detection error: '' of
                   Some e' \<Rightarrow> (Inl e', hp)
                 | None \<Rightarrow> (Inr [], hp))
           else (Inl e, hp))
      | Inr g \<Rightarrow>
          (case detectMultiScale lib g (13 / 10) 5 of
             Inl e \<Rightarrow>
               (if is_Exception e
                then (case py_print lib ''OpenCV detection error: '' of
                        Some e' \<Rightarrow> (Inl e', snd (alloc g hp))
                      | None \<Rightarrow> (Inr [], snd (alloc g hp)))
                else (Inl e, snd (alloc g hp)))
           | Inr faces \<Rightarrow> (Inr faces, snd (alloc g hp))))"
  by (simp add: detect_faces_opencv_def try_except_def and_then_def cv_cvtColor_def alloc_def
      split: sum.splits option.splits)

lemma detect_faces_deepface_cases:
  "detect_faces_deepface lib image_array hp =
     (case extract_faces lib (cells hp image_array) of
        Inl e \<Rightarrow>
          (if is_Exception e
           then (case py_print lib ''DeepFace detection error: '' of
                   Some e' \<Rightarrow> (Inl e', hp)
                 | None \<Rightarrow> detect_faces_opencv lib image_array hp)
           else (Inl e, hp))
      | Inr faces \<Rightarrow> (Inr (face_locations_of faces), hp))"
  by (simp add: detect_faces_deepface_def try_except_def split: sum.splits option.splits)


lemma detect_faces_opencv_frame:
  assumes "a < next_free hp"
  shows "cells (snd (detect_faces_opencv lib image_array hp)) a = cells hp a"
  using assms by (simp add: detect_faces_opencv_cases split: sum.splits option.splits)

lemma detect_faces_deepface_frame:
  assumes "a < next_free hp"
  shows "cells (snd (detect_faces_deepface lib image_array hp)) a = cells hp a"
  using detect_faces_opencv_frame [OF assms, of lib image_array]
  by (simp add: detect_faces_deepface_cases split: sum.splits option.splits)








text \<open>
  C10. Detection does not change the frame. The detector libraries read the array they
  are given; the functions themselves write to no array, and the only allocation, the
  grayscale image of the fallback, is at a fresh address. For a frame that is allocated,
  its contents after \<^verbatim>\<open>detect_faces_deepface\<close> or \<^verbatim>\<open>detect_faces_opencv\<close> are its
  contents before.
\<close>

theorem detection_leaves_frame_unchanged:
  assumes "image_array < next_free hp"
  shows "cells (snd (detect_faces_deepface lib image_array hp)) image_array = cells hp image_array \<and>
         cells (snd (detect_faces_opencv lib image_array hp)) image_array = cells hp image_array"
  using assms by (simp add: detect_faces_deepface_frame detect_faces_opencv_frame)

text \<open>
  C10, on the path that allocates: the primary detector raises and the fallback converts
  the frame to grayscale.
\<close>

theorem detection_leaves_frame_unchanged_witness:
  "cells (snd (detect_faces_deepface (example_libs (Inl DetectorError) None) 0 example_heap)) 0
     = example_frame \<and>
   next_free (snd (detect_faces_deepface (example_libs (Inl DetectorError) None) 0 example_heap)) = 2 \<and>
   cells (snd (detect_faces_opencv (example_libs (Inl DetectorError) None) 0 example_heap)) 0
     = example_frame"
  using detection_leaves_frame_unchanged [of 0 example_heap "example_libs (Inl DetectorError) None"]
  by (simp add: detect_faces_deepface_cases detect_faces_opencv_cases example_libs_def is_empty_def
      is_Exception_def alloc_def)

subsection \<open>FrameProcessor\<close>

text \<open>
  C8. When the locator finds no face, \<^verbatim>\<open>process_image\<close> returns the frame it was given
  (the same array), with its contents unchanged, and the face count 0.
\<close>

theorem process_image_no_faces:
  assumes live: "image_array < next_free hp"
    and none: "fst (detect_faces_deepface lib image_array hp) = Inr []"
  shows "\<exists>hp'. process_image lib image_array method intensity hp = (Inr (image_array, 0), hp') \<and>
     cells hp' image_array = cells hp image_array"
proof -
  obtain hp1 where det: "detect_faces_deepface lib image_array hp = (Inr [], hp1)"
    using none by (cases "detect_faces_deepface lib image_array hp") simp
  have "cells hp1 image_array = cells hp image_array"
    using detect_faces_deepface_frame [OF live, of lib image_array] det by simp
  moreover have "process_image lib image_array method intensity hp = (Inr (image_array, 0), hp1)"
    by (simp add: process_image_def and_then_def det)
  ultimately show ?thesis by blast
qed

text \<open>
  C8, for a detector that reports no face on the 3 by 3 frame.
\<close>

theorem process_image_no_faces_witness:
  "\<exists>hp'. process_image (example_libs (Inr []) None) 0 ''blur'' 51 example_heap = (Inr (0, 0), hp') \<and>
         cells hp' 0 = example_frame"
  using process_image_no_faces [of 0 example_heap "example_libs (Inr []) None" "''blur''" 51]
  by (simp add: detect_faces_deepface_cases example_libs_def)

subsection \<open>VideoPipeline\<close>

declare video_loop.simps [simp del]

lemma py_int_of_int [simp]: "py_int (of_int n) = n"
  by (simp add: py_int_def)

lemma py_int_zero [simp]: "py_int 0 = 0"
  by (simp add: py_int_def)

lemma py_int_half_rate: "py_int (25 / 2) = 12"
proof -
  have "\<lfloor>25 / 2 :: rat\<rfloor> = 12"
    by (rule floor_unique) simp_all
  then show ?thesis
    by (simp add: py_int_def)
qed

text \<open>
  What the loop preserves when it ends normally: the frame counter advances with the
  frames delivered by \<^verbatim>\<open>read()\<close> and with the frames written, every pending frame is
  read, and the configuration of the writer is untouched.
\<close>

lemma video_loop_invariant:
  assumes "video_loop lib meth intensity total_frames st frame_count total_faces
             = (Inr (total_faces', frame_count'), st')"
  shows "frame_count' + cap_pos (cap st) = frame_count + cap_pos (cap st') \<and>
         frame_count' + length (out_written (out st))
           = frame_count + length (out_written (out st')) \<and>
         (isOpened (cap st) \<longrightarrow> cap_pos (cap st') = cap_pos (cap st) + length (cap_pending (cap st))) \<and>
         (\<not> isOpened (cap st) \<longrightarrow> cap_pos (cap st') = cap_pos (cap st)) \<and>
         out_fps (out st') = out_fps (out st) \<and> out_size (out st') = out_size (out st)"
  using assms
proof (induction lib meth intensity total_frames st frame_count total_faces rule: video_loop.induct)
  case (1 lib meth intensity total_frames st frame_count total_faces)
  show ?case
  proof (cases "isOpened (cap st)")
    case False
    with "1.prems" show ?thesis
      by (subst (asm) video_loop.simps) auto
  next
    case True
    show ?thesis
    proof (cases "cap_pending (cap st)")
      case Nil
      with True "1.prems" show ?thesis
        by (subst (asm) video_loop.simps) (auto simp: cap_read_def)
    next
      case (Cons f rest)
      obtain frame c1 hp1 where rd: "cap_read (cap st) (mem st) = (Some frame, c1, hp1)"
        and c1: "c1 = (cap st)\<lparr>cap_pending := rest, cap_pos := Suc (cap_pos (cap st))\<rparr>"
        using True Cons by (auto simp: cap_read_def alloc_def)
      obtain copy hp2 where cp: "np_copy frame hp1 = (copy, hp2)"
        by (cases "np_copy frame hp1")
      obtain res hp3 where pr: "process_image lib copy meth intensity hp2 = (res, hp3)"
        by (cases "process_image lib copy meth intensity hp2")
      show ?thesis
      proof (cases res)
        case (Inl e)
        with True rd cp pr "1.prems" show ?thesis
          by (subst (asm) video_loop.simps) simp
      next
        case (Inr ok)
        obtain processed_frame faces_count where ok: "ok = (processed_frame, faces_count)"
          by (cases ok)
        let ?st' = "st\<lparr>cap := c1, out := out_write (out st) (cells hp3 processed_frame), mem := hp3\<rparr>"
        show ?thesis
        proof (cases "report_progress lib (Suc frame_count) total_frames")
          case (Some e)
          with \<open>isOpened (cap st)\<close> rd cp pr Inr ok "1.prems" show ?thesis
            by (subst (asm) video_loop.simps) (simp add: Let_def)
        next
          case None
          have run: "video_loop lib meth intensity total_frames ?st' (Suc frame_count)
                       (total_faces + faces_count) = (Inr (total_faces', frame_count'), st')"
            using \<open>isOpened (cap st)\<close> rd cp pr Inr ok None "1.prems"
            by (subst (asm) video_loop.simps) (simp add: Let_def)
          have opened: "isOpened (cap ?st')"
            using \<open>isOpened (cap st)\<close> by (simp add: c1 isOpened_def)
          have IH: "frame_count' + cap_pos (cap ?st') = Suc frame_count + cap_pos (cap st') \<and>
             frame_count' + length (out_written (out ?st'))
               = Suc frame_count + length (out_written (out st')) \<and>
             (isOpened (cap ?st') \<longrightarrow> cap_pos (cap st') = cap_pos (cap ?st') + length (cap_pending (cap ?st'))) \<and>
             (\<not> isOpened (cap ?st') \<longrightarrow> cap_pos (cap st') = cap_pos (cap ?st')) \<and>
             out_fps (out st') = out_fps (out ?st') \<and> out_size (out st') = out_size (out ?st')"
            using "1.IH" [OF _ rd [symmetric] refl refl cp [symmetric] refl] \<open>isOpened (cap st)\<close> pr Inr ok None run
            by simp
          then show ?thesis
            using opened \<open>isOpened (cap st)\<close> Cons by (simp add: c1 out_write_def)
        qed
      qed
    qed
  qed
qed

text \<open>
  The loop never releases a handle, whether it ends normally or with an exception.
\<close>

lemma video_loop_handles:
  assumes "video_loop lib meth intensity total_frames st frame_count total_faces = (res, st')"
  shows "cap_released (cap st') = cap_released (cap st) \<and>
         out_released (out st') = out_released (out st)"
  using assms
proof (induction lib meth intensity total_frames st frame_count total_faces rule: video_loop.induct)
  case (1 lib meth intensity total_frames st frame_count total_faces)
  show ?case
  proof (cases "isOpened (cap st)")
    case False
    with "1.prems" show ?thesis
      by (subst (asm) video_loop.simps) auto
  next
    case opened: True
    obtain got c1 hp1 where rd: "cap_read (cap st) (mem st) = (got, c1, hp1)"
      by (cases "cap_read (cap st) (mem st)")
    then have c1: "cap_released c1 = cap_released (cap st)"
      by (auto simp: cap_read_def alloc_def split: if_splits list.splits)
    show ?thesis
    proof (cases got)
      case None
      with opened rd c1 "1.prems" show ?thesis
        by (subst (asm) video_loop.simps) auto
    next
      case (Some frame)
      obtain copy hp2 where cp: "np_copy frame hp1 = (copy, hp2)"
        by (cases "np_copy frame hp1")
      obtain r hp3 where pr: "process_image lib copy meth intensity hp2 = (r, hp3)"
        by (cases "process_image lib copy meth intensity hp2")
      show ?thesis
      proof (cases r)
        case (Inl e)
        with opened rd Some cp pr c1 "1.prems" show ?thesis
          by (subst (asm) video_loop.simps) auto
      next
        case (Inr ok)
        obtain processed_frame faces_count where ok: "ok = (processed_frame, faces_count)"
          by (cases ok)
        let ?st' = "st\<lparr>cap := c1, out := out_write (out st) (cells hp3 processed_frame), mem := hp3\<rparr>"
        show ?thesis
        proof (cases "report_progress lib (Suc frame_count) total_frames")
          case raised: (Some e)
          with opened rd Some cp pr Inr ok c1 "1.prems" show ?thesis
            by (subst (asm) video_loop.simps) (auto simp: Let_def out_write_def)
        next
          case None
          have run: "video_loop lib meth intensity total_frames ?st' (Suc frame_count)
                       (total_faces + faces_count) = (res, st')"
            using opened rd Some cp pr Inr ok None "1.prems"
            by (subst (asm) video_loop.simps) (simp add: Let_def)
          have "cap_released (cap st') = cap_released (cap ?st') \<and>
                out_released (out st') = out_released (out ?st')"
            using "1.IH" [OF _ rd [unfolded Some, symmetric] refl refl cp [symmetric] refl]
              opened pr Inr ok None run
            by simp
          then show ?thesis
            by (simp add: c1 out_write_def)
        qed
      qed
    qed
  qed
qed

text \<open>
  The two \<^verbatim>\<open>release()\<close> calls are reached exactly when the loop ends normally.
\<close>

lemma process_video_error_keeps_handles:
  assumes "process_video lib video_path output_path method intensity hp = (Inl e, st)"
  shows "\<not> cap_released (cap st) \<and> \<not> out_released (out st)"
proof -
  let ?cap0 = "VideoCapture lib video_path"
  let ?out0 = "VideoWriter output_path ''mp4v'' (py_int (cap_get ?cap0 CAP_PROP_FPS))
                 (py_int (cap_get ?cap0 CAP_PROP_FRAME_WIDTH), py_int (cap_get ?cap0 CAP_PROP_FRAME_HEIGHT))"
  let ?st0 = "\<lparr>cap = ?cap0, out = ?out0, mem = hp\<rparr>"
  let ?loop = "video_loop lib method intensity (py_int (cap_get ?cap0 CAP_PROP_FRAME_COUNT)) ?st0 0 0"
  have loop: "?loop = (Inl e, st)"
    using assms by (auto simp: process_video_def Let_def split: prod.splits sum.splits)
  have "cap_released (cap st) = cap_released (cap ?st0) \<and>
        out_released (out st) = out_released (out ?st0)"
    using loop by (rule video_loop_handles)
  then show ?thesis
    by (simp add: VideoCapture_def VideoWriter_def)
qed

lemma process_video_success_releases:
  assumes "process_video lib video_path output_path method intensity hp = (Inr r, st)"
  shows "cap_released (cap st) \<and> out_released (out st)"
  using assms
  by (auto simp: process_video_def Let_def cap_release_def out_release_def
      split: prod.splits sum.splits)

text \<open>
  The loop ends normally when processing a frame never raises, the progress line never
  divides by zero and its \<^verbatim>\<open>print\<close> succeeds.
\<close>

lemma report_progress_quiet:
  assumes "\<forall>line. py_print lib line = None"
    and "total_frames \<noteq> 0 \<or> frame_count < 10" and "0 < frame_count"
  shows "report_progress lib frame_count total_frames = None"
  using assms by (auto simp: report_progress_def dest: dvd_imp_le)

lemma video_loop_returns:
  assumes ok: "\<forall>copy hp. \<exists>r hp'. process_image lib copy meth intensity hp = (Inr r, hp')"
    and prints: "\<forall>line. py_print lib line = None"
    and progress: "total_frames \<noteq> 0 \<or> frame_count + length (cap_pending (cap st)) < 10"
  shows "\<exists>r st'. video_loop lib meth intensity total_frames st frame_count total_faces
           = (Inr r, st')"
  using ok prints progress
proof (induction lib meth intensity total_frames st frame_count total_faces rule: video_loop.induct)
  case (1 lib meth intensity total_frames st frame_count total_faces)
  show ?case
  proof (cases "isOpened (cap st)")
    case False
    then show ?thesis
      by (subst video_loop.simps) simp
  next
    case opened: True
    show ?thesis
    proof (cases "cap_pending (cap st)")
      case Nil
      with opened show ?thesis
        by (subst video_loop.simps) (simp add: cap_read_def)
    next
      case (Cons f rest)
      obtain frame c1 hp1 where rd: "cap_read (cap st) (mem st) = (Some frame, c1, hp1)"
        and c1: "c1 = (cap st)\<lparr>cap_pending := rest, cap_pos := Suc (cap_pos (cap st))\<rparr>"
        using opened Cons by (auto simp: cap_read_def alloc_def)
      obtain copy hp2 where cp: "np_copy frame hp1 = (copy, hp2)"
        by (cases "np_copy frame hp1")
      obtain processed_frame faces_count hp3
        where pr: "process_image lib copy meth intensity hp2
                     = (Inr (processed_frame, faces_count), hp3)"
        using "1.prems"(1) by (metis surj_pair)
      let ?st' = "st\<lparr>cap := c1, out := out_write (out st) (cells hp3 processed_frame), mem := hp3\<rparr>"
      have "total_frames \<noteq> 0 \<or> Suc frame_count < 10"
        using "1.prems"(3) Cons by auto
      then have quiet: "report_progress lib (Suc frame_count) total_frames = None"
        using "1.prems"(2) by (intro report_progress_quiet) simp_all
      have "total_frames \<noteq> 0 \<or> Suc frame_count + length (cap_pending (cap ?st')) < 10"
        using "1.prems"(3) Cons by (auto simp: c1)
      then have "\<exists>r st'. video_loop lib meth intensity total_frames ?st' (Suc frame_count)
                   (total_faces + faces_count) = (Inr r, st')"
        using "1.IH" [OF _ rd [symmetric] refl refl cp [symmetric] refl pr [symmetric] refl refl refl]
          opened quiet "1.prems"(1,2) by simp
      then show ?thesis
        using opened rd cp pr quiet by (subst video_loop.simps) (simp add: Let_def)
    qed
  qed
qed

lemma process_video_returns:
  assumes "\<forall>copy hp. \<exists>r hp'. process_image lib copy meth intensity hp = (Inr r, hp')"
    and "\<forall>line. py_print lib line = None"
    and "\<forall>c. open_file lib video_path = Some c \<longrightarrow>
           prop_frame_count c \<noteq> 0 \<or> length (decodable c) < 10"
  shows "\<exists>r st. process_video lib video_path output_path meth intensity hp = (Inr r, st)"
proof -
  let ?cap0 = "VideoCapture lib video_path"
  let ?out0 = "VideoWriter output_path ''mp4v'' (py_int (cap_get ?cap0 CAP_PROP_FPS))
                 (py_int (cap_get ?cap0 CAP_PROP_FRAME_WIDTH), py_int (cap_get ?cap0 CAP_PROP_FRAME_HEIGHT))"
  let ?st0 = "\<lparr>cap = ?cap0, out = ?out0, mem = hp\<rparr>"
  have "py_int (cap_get ?cap0 CAP_PROP_FRAME_COUNT) \<noteq> 0 \<or> 0 + length (cap_pending (cap ?st0)) < 10"
    using assms(3) by (cases "open_file lib video_path") (auto simp: VideoCapture_def cap_get_def)
  with assms(1,2) obtain r st' where
    "video_loop lib meth intensity (py_int (cap_get ?cap0 CAP_PROP_FRAME_COUNT)) ?st0 0 0 = (Inr r, st')"
    using video_loop_returns by blast
  then show ?thesis
    by (cases r) (simp add: process_video_def Let_def)
qed

lemma half_rate_run_eval:
  "fst half_rate_run = Inr (0, 1)" "out_fps (out (snd half_rate_run)) = 12"
  unfolding half_rate_run_def
  by (simp_all add: py_int_half_rate process_video_def VideoCapture_def VideoWriter_def cap_get_def
      isOpened_def cap_read_def np_copy_def alloc_def process_image_def and_then_def try_except_def
      detect_faces_deepface_def Let_def example_libs_def example_video_def example_heap_def
      out_write_def cap_release_def out_release_def report_progress_def video_loop.simps)

text \<open>
  C2. Both handles should be released on every execution, also when an error occurs
  partway. \<^verbatim>\<open>process_video\<close> calls \<^verbatim>\<open>cap.release()\<close> and \<^verbatim>\<open>out.release()\<close> only after
  the loop, outside any \<^verbatim>\<open>try\<close>/\<^verbatim>\<open>finally\<close>. On a one-frame video with a face 2 pixels
  wide, pixelated with intensity 3, processing the frame raises, the exception leaves
  \<^verbatim>\<open>process_video\<close>, and neither handle has been released.
\<close>

theorem process_video_leaks_handles_on_error:
  "fst leaking_run = Inl CvError \<and>
   \<not> cap_released (cap (snd leaking_run)) \<and> \<not> out_released (out (snd leaking_run))"
  unfolding leaking_run_def
  by (simp add: process_video_def VideoCapture_def VideoWriter_def cap_get_def py_int_def
      isOpened_def cap_read_def np_copy_def alloc_def process_image_def and_then_def try_except_def
      detect_faces_deepface_def anonymize_face_def cv_resize_def Let_def
      example_libs_def example_video_def example_heap_def small_face_def facial_area_of_def
      rect_of_def dict_get_def is_Exception_def video_loop.simps)

text \<open>
  C5. The output encoder should be configured with the frame rate of the input. The code
  reads the rate of the input and hands it to \<^verbatim>\<open>cv2.VideoWriter\<close>, which takes a float, but
  through \<^verbatim>\<open>int(...)\<close>, as it does for the width and the height beside it: on a video at
  12.5 frames per second, processed without error (one frame read, one frame counted), the
  writer is configured with 12 frames per second.
\<close>

theorem encoder_frame_rate_is_truncated:
  "fst half_rate_run = Inr (0, 1) \<and>
   of_int (out_fps (out (snd half_rate_run))) \<noteq> prop_fps (example_video (25 / 2) [example_frame])"
  using half_rate_run_eval by (simp add: example_video_def)

text \<open>
  What \<^verbatim>\<open>process_video\<close> does establish whenever it returns: the frame count it returns is
  the number of frames read from the input, which is every frame of the container (none
  when the input cannot be opened) and the number of frames handed to the encoder; the
  encoder is configured with the width and height of the input, and with
  \<^verbatim>\<open>int(fps)\<close> as its frame rate.
\<close>

lemma process_video_counts_frames:
  assumes "process_video lib video_path output_path method intensity hp
             = (Inr (total_faces, frame_count), st)"
  shows "frame_count = cap_pos (cap st) \<and>
         frame_count = (case open_file lib video_path of None \<Rightarrow> 0 | Some c \<Rightarrow> length (decodable c)) \<and>
         length (out_written (out st)) = frame_count \<and>
         out_fps (out st) = (case open_file lib video_path of None \<Rightarrow> 0 | Some c \<Rightarrow> py_int (prop_fps c)) \<and>
         out_size (out st) = (case open_file lib video_path of None \<Rightarrow> (0, 0)
                               | Some c \<Rightarrow> (prop_width c, prop_height c))"
proof -
  let ?cap0 = "VideoCapture lib video_path"
  let ?out0 = "VideoWriter output_path ''mp4v'' (py_int (cap_get ?cap0 CAP_PROP_FPS))
                 (py_int (cap_get ?cap0 CAP_PROP_FRAME_WIDTH), py_int (cap_get ?cap0 CAP_PROP_FRAME_HEIGHT))"
  let ?st0 = "\<lparr>cap = ?cap0, out = ?out0, mem = hp\<rparr>"
  let ?loop = "video_loop lib method intensity (py_int (cap_get ?cap0 CAP_PROP_FRAME_COUNT)) ?st0 0 0"
  obtain st1 where loop: "?loop = (Inr (total_faces, frame_count), st1)"
    and st: "st = st1\<lparr>cap := cap_release (cap st1), out := out_release (out st1)\<rparr>"
    using assms by (auto simp: process_video_def Let_def split: prod.splits sum.splits)
  note inv = video_loop_invariant [OF loop]
  show ?thesis
  proof (cases "open_file lib video_path")
    case None
    then have "\<not> isOpened (cap ?st0)" by (simp add: VideoCapture_def isOpened_def)
    with inv None show ?thesis
      by (auto simp: st cap_release_def out_release_def VideoCapture_def VideoWriter_def cap_get_def)
  next
    case (Some c)
    then have "isOpened (cap ?st0)" by (simp add: VideoCapture_def isOpened_def)
    with inv Some show ?thesis
      by (auto simp: st cap_release_def out_release_def VideoCapture_def VideoWriter_def cap_get_def)
  qed
qed

text \<open>
  The same, on the one-frame video at 12.5 frames per second.
\<close>

lemma process_video_counts_frames_example:
  "fst half_rate_run = Inr (0, 1) \<and>
   cap_pos (cap (snd half_rate_run)) = 1 \<and>
   length (out_written (out (snd half_rate_run))) = 1 \<and>
   out_fps (out (snd half_rate_run)) = 12 \<and>
   out_size (out (snd half_rate_run)) = (3, 3)"
proof -
  have run: "process_video (example_libs (Inr []) (Some (example_video (25 / 2) [example_frame])))
               ''in.mp4'' ''out.mp4'' ''blur'' 51 example_heap = (Inr (0, 1), snd half_rate_run)"
    using half_rate_run_eval(1) by (simp add: half_rate_run_def prod_eq_iff)
  from process_video_counts_frames [OF run] show ?thesis
    by (simp add: half_rate_run_eval example_libs_def example_video_def py_int_half_rate)
qed

end
